theory Spec2Isabelle
  imports Complex_Main "HOL-Library.Word"
begin

section \<open>Python values and exceptions\<close>

text \<open>
  The middleware of \<^verbatim>\<open>gt8004/middleware/fastapi.py\<close> works on the objects that
  \<^verbatim>\<open>json.loads\<close> produces. A decoded document is \<^verbatim>\<open>None\<close>, a bool, an int, a float,
  a str, a list or a dict with str keys. Only the truth value of a float is ever used,
  so a float is a rational or one of the three special values the decoder accepts.
  A dict is an association list read with \<open>map_of\<close>.
\<close>

datatype pyfloat = Finite rat | PosInf | NegInf | NaN

datatype pyval =
    PNone
  | PBool bool
  | PInt int
  | PFloat pyfloat
  | PStr string
  | PList "pyval list"
  | PDict "(string \<times> pyval) list"

text \<open>
  The exception classes that matter for the handlers of the file. \<^verbatim>\<open>JSONDecodeError\<close> is
  a subclass of \<^verbatim>\<open>ValueError\<close>, so a handler for the former does not stop the latter.
  \<^verbatim>\<open>CancelledError\<close> derives from \<^verbatim>\<open>BaseException\<close>; every other class derives from
  \<^verbatim>\<open>Exception\<close>.
\<close>

datatype exn =
    JSONDecodeError
  | TypeError
  | AttributeError
  | ValueError
  | RecursionError
  | ClientDisconnect
  | ValidationError
  | CancelledError

text \<open>\<^verbatim>\<open>except (json.JSONDecodeError, TypeError, AttributeError)\<close>\<close>

fun extract_handled :: "exn \<Rightarrow> bool" where
  "extract_handled JSONDecodeError = True"
| "extract_handled TypeError = True"
| "extract_handled AttributeError = True"
| "extract_handled _ = False"

text \<open>\<^verbatim>\<open>except Exception\<close>\<close>

fun is_Exception :: "exn \<Rightarrow> bool" where
  "is_Exception CancelledError = False"
| "is_Exception _ = True"

text \<open>
  \<^verbatim>\<open>obj.get(key, default)\<close>: only a dict has the method; on every other decoded value
  the attribute lookup raises \<^verbatim>\<open>AttributeError\<close>.
\<close>

fun py_get :: "pyval \<Rightarrow> string \<Rightarrow> pyval \<Rightarrow> exn + pyval" where
  "py_get (PDict kvs) k d = Inr (case map_of kvs k of Some v \<Rightarrow> v | None \<Rightarrow> d)"
| "py_get _ k d = Inl AttributeError"

text \<open>The truth value of an object, as \<^verbatim>\<open>if skill:\<close> tests it.\<close>

fun truthy :: "pyval \<Rightarrow> bool" where
  "truthy PNone = False"
| "truthy (PBool b) = b"
| "truthy (PInt i) = (i \<noteq> 0)"
| "truthy (PFloat f) = (f \<noteq> Finite 0)"
| "truthy (PStr s) = (s \<noteq> [])"
| "truthy (PList xs) = (xs \<noteq> [])"
| "truthy (PDict kvs) = (kvs \<noteq> [])"

text \<open>
  \<^verbatim>\<open>json.loads\<close> belongs to the standard library, not to this repository: it is a
  parameter of the model, a function from the text to the raised exception or to the
  decoded object.
\<close>

type_synonym json_loads = "string \<Rightarrow> exn + pyval"

section \<open>String operations\<close>

text \<open>\<^verbatim>\<open>s.rstrip(c)\<close> for a single character: every trailing occurrence is removed.\<close>

definition py_rstrip :: "char \<Rightarrow> string \<Rightarrow> string" where
  "py_rstrip c s = rev (dropWhile (\<lambda>x. x = c) (rev s))"

text \<open>
  \<^verbatim>\<open>s.split(c)\<close> with an explicit separator: the pieces between the separators, empty
  pieces kept; the empty string gives one empty piece.
\<close>

fun py_split :: "char \<Rightarrow> string \<Rightarrow> string list" where
  "py_split c [] = [[]]"
| "py_split c (x # xs) =
     (if x = c then [] # py_split c xs
      else (case py_split c xs of
              [] \<Rightarrow> [[x]]
            | s # ss \<Rightarrow> (x # s) # ss))"

section \<open>Tool name extraction\<close>

text \<open>
  \<^verbatim>\<open>_extract_http_tool_name(path)\<close>:
  \<^verbatim>\<open>segments = path.rstrip("/").split("/"); return segments[-1] if segments else None\<close>
\<close>

definition extract_http_tool_name :: "string \<Rightarrow> pyval" where
  "extract_http_tool_name path =
     (let segments = py_split CHR ''/'' (py_rstrip CHR ''/'' path)
      in if segments \<noteq> [] then PStr (last segments) else PNone)"

text \<open>
  The body of the \<^verbatim>\<open>try\<close> block of \<^verbatim>\<open>_extract_mcp_tool_name\<close>. \<open>Inr (Some v)\<close> is the
  \<^verbatim>\<open>return\<close> inside the block, \<open>Inr None\<close> is leaving the block at its end, \<open>Inl e\<close> is
  the exception raised in it.
\<close>

definition mcp_try :: "json_loads \<Rightarrow> string \<Rightarrow> exn + pyval option" where
  "mcp_try loads body =
     (case loads body of
        Inl e \<Rightarrow> Inl e
      | Inr data \<Rightarrow>
          (case py_get data ''method'' PNone of
             Inl e \<Rightarrow> Inl e
           | Inr m \<Rightarrow>
               if m = PStr ''tools/call'' then
                 (case py_get data ''params'' (PDict []) of
                    Inl e \<Rightarrow> Inl e
                  | Inr params \<Rightarrow>
                      (case py_get params ''name'' PNone of
                         Inl e \<Rightarrow> Inl e
                       | Inr name \<Rightarrow> Inr (Some name)))
               else Inr None))"

text \<open>
  \<^verbatim>\<open>_extract_mcp_tool_name(body)\<close>: \<^verbatim>\<open>if not body: return None\<close>, then the \<^verbatim>\<open>try\<close> block
  with its handler, then \<^verbatim>\<open>return None\<close>. An exception the handler does not name leaves
  the function.
\<close>

definition extract_mcp_tool_name :: "json_loads \<Rightarrow> string option \<Rightarrow> exn + pyval" where
  "extract_mcp_tool_name loads body =
     (case body of
        None \<Rightarrow> Inr PNone
      | Some b \<Rightarrow>
          if b = [] then Inr PNone
          else (case mcp_try loads b of
                  Inr (Some v) \<Rightarrow> Inr v
                | Inr None \<Rightarrow> Inr PNone
                | Inl e \<Rightarrow> if extract_handled e then Inr PNone else Inl e))"

text \<open>The body of the \<^verbatim>\<open>try\<close> block of \<^verbatim>\<open>_extract_a2a_tool_name\<close>.\<close>

definition a2a_try :: "json_loads \<Rightarrow> string \<Rightarrow> exn + pyval option" where
  "a2a_try loads body =
     (case loads body of
        Inl e \<Rightarrow> Inl e
      | Inr data \<Rightarrow>
          (case py_get data ''skill_id'' PNone of
             Inl e \<Rightarrow> Inl e
           | Inr skill \<Rightarrow> if truthy skill then Inr (Some skill) else Inr None))"

text \<open>
  \<^verbatim>\<open>_extract_a2a_tool_name(body, path)\<close>: the guarded \<^verbatim>\<open>try\<close> block, then the
  fallback on the last path segment, written out in the function as in the source.
\<close>

definition extract_a2a_tool_name ::
  "json_loads \<Rightarrow> string option \<Rightarrow> string \<Rightarrow> exn + pyval" where
  "extract_a2a_tool_name loads body path =
     (case (case body of
              None \<Rightarrow> Inr None
            | Some b \<Rightarrow>
                if b = [] then Inr None
                else (case a2a_try loads b of
                        Inr r \<Rightarrow> Inr r
                      | Inl e \<Rightarrow> if extract_handled e then Inr None else Inl e)) of
        Inl e \<Rightarrow> Inl e
      | Inr (Some skill) \<Rightarrow> Inr skill
      | Inr None \<Rightarrow>
          Inr (let segments = py_split CHR ''/'' (py_rstrip CHR ''/'' path)
               in if segments \<noteq> [] then PStr (last segments) else PNone))"

text \<open>
  The protocol switch of \<^verbatim>\<open>GT8004Middleware.dispatch\<close>: \<^verbatim>\<open>"mcp"\<close> and \<^verbatim>\<open>"a2a"\<close> by
  exact comparison, everything else (also \<^verbatim>\<open>None\<close>) the path extractor.
\<close>

definition select_tool_name ::
  "json_loads \<Rightarrow> string option \<Rightarrow> string option \<Rightarrow> string \<Rightarrow> exn + pyval" where
  "select_tool_name loads protocol request_body path =
     (if protocol = Some ''mcp'' then extract_mcp_tool_name loads request_body
      else if protocol = Some ''a2a'' then extract_a2a_tool_name loads request_body path
      else Inr (extract_http_tool_name path))"

text \<open>
  A table of documents with the objects \<^verbatim>\<open>json.loads\<close> decodes them to, for the
  concrete evaluations below; every other text is reported as not being JSON. Two
  texts are in the table on which the decoder of CPython fails in another way: on
  4301 times the digit 1 it raises \<^verbatim>\<open>ValueError\<close>, the integer being beyond the 4300
  digits that the conversion of a string to an int accepts, and on 2000 opening
  brackets it raises \<^verbatim>\<open>RecursionError\<close>, the nesting being deeper than the recursion
  limit.
\<close>

definition loads_fixture :: json_loads where
  \<open>loads_fixture s =
     (if length s = 4301 \<and> set s = {CHR ''1''} then Inl ValueError
      else if length s = 2000 \<and> set s = {CHR ''[''} then Inl RecursionError
      else if s = ''{"method": "tools/call", "params": {"name": "search"}}'' then
        Inr (PDict [(''method'', PStr ''tools/call''),
                    (''params'', PDict [(''name'', PStr ''search'')])])
      else if s = ''{"method": "tools/call", "params": {"name": 5}}'' then
        Inr (PDict [(''method'', PStr ''tools/call''),
                    (''params'', PDict [(''name'', PInt 5)])])
      else if s = ''{"method": "resources/list", "params": {"name": "foo"}}'' then
        Inr (PDict [(''method'', PStr ''resources/list''),
                    (''params'', PDict [(''name'', PStr ''foo'')])])
      else if s = ''{"skill_id": "translate", "input": "hello"}'' then
        Inr (PDict [(''skill_id'', PStr ''translate''), (''input'', PStr ''hello'')])
      else if s = ''{"skill_id": ""}'' then
        Inr (PDict [(''skill_id'', PStr [])])
      else if s = ''[1, 2, 3]'' then
        Inr (PList [PInt 1, PInt 2, PInt 3])
      else Inl JSONDecodeError)\<close>

section \<open>The specification's reading of the extractors\<close>

text \<open>
  The last non-empty segment of a split path, the empty string when there is none.
\<close>

definition last_nonempty_segment :: "string list \<Rightarrow> string" where
  "last_nonempty_segment segments =
     (case filter (\<lambda>s. s \<noteq> []) segments of [] \<Rightarrow> [] | x # xs \<Rightarrow> last (x # xs))"

text \<open>
  \<open>params.name\<close> of a decoded document: present when the document is a mapping whose
  \<open>method\<close> is the literal \<^verbatim>\<open>"tools/call"\<close> and whose \<open>params\<close> is a mapping with the
  key \<open>name\<close>.
\<close>

definition mcp_params_name :: "pyval \<Rightarrow> pyval option" where
  "mcp_params_name data =
     (case data of
        PDict kvs \<Rightarrow>
          if map_of kvs ''method'' = Some (PStr ''tools/call'') then
            (case map_of kvs ''params'' of
               Some (PDict ps) \<Rightarrow> map_of ps ''name''
             | _ \<Rightarrow> None)
          else None
      | _ \<Rightarrow> None)"

text \<open>
  The \<open>skill_id\<close> the A2A extractor accepts: the document is a mapping and the value
  under \<open>skill_id\<close> counts as true (not null, not false, not zero, not empty).
\<close>

definition a2a_skill :: "pyval \<Rightarrow> pyval option" where
  "a2a_skill data =
     (case data of
        PDict kvs \<Rightarrow>
          (case map_of kvs ''skill_id'' of
             Some v \<Rightarrow> if truthy v then Some v else None
           | None \<Rightarrow> None)
      | _ \<Rightarrow> None)"

section \<open>The request interception of the FastAPI middleware\<close>

type_synonym byte = "8 word"

text \<open>\<^verbatim>\<open>_BODY_LIMIT = 16384  # 16 KB\<close>\<close>

definition BODY_LIMIT :: nat where
  "BODY_LIMIT = 16384"

text \<open>
  What \<^verbatim>\<open>dispatch\<close> reads of the Starlette request: the method, the URL path, the
  outcome of \<^verbatim>\<open>await request.body()\<close> (the bytes, or the exception it raises), the
  header lookup and the host of \<^verbatim>\<open>request.client\<close> when there is one.
\<close>

record request =
  req_method :: string
  req_path :: string
  req_body :: "exn + byte list"
  req_headers :: "string \<Rightarrow> string option"
  req_client :: "string option"

text \<open>
  A chunk of \<^verbatim>\<open>response.body_iterator\<close> is a str or bytes. The iterator yields its
  chunks and then ends or raises.
\<close>

datatype chunk = StrChunk string | BytesChunk "byte list"

record response =
  resp_status_code :: int
  body_iterator :: "chunk list \<times> exn option"
  resp_headers :: "(string \<times> string) list"
  media_type :: "string option"

text \<open>
  Modelled from the spec: the entry type \<^verbatim>\<open>RequestLogEntry\<close> of \<^verbatim>\<open>gt8004/types.py\<close>,
  which is not among the source files. The fields are those \<^verbatim>\<open>dispatch\<close> passes to the
  constructor; of the validation the spec names one rule, that a protocol other than
  null, \<^verbatim>\<open>"mcp"\<close> and \<^verbatim>\<open>"a2a"\<close> is rejected at construction.
\<close>

record RequestLogEntry =
  request_id :: string
  http_method :: string
  path :: string
  status_code :: int
  response_ms :: rat
  tool_name :: pyval
  protocol :: "string option"
  request_body :: "string option"
  request_body_size :: nat
  response_body :: "string option"
  response_body_size :: nat
  headers :: "(string \<times> string) list option"
  ip_address :: "string option"
  timestamp :: string

definition RequestLogEntry_init :: "RequestLogEntry \<Rightarrow> exn + RequestLogEntry" where
  "RequestLogEntry_init entry =
     (if protocol entry = None \<or> protocol entry = Some ''mcp'' \<or> protocol entry = Some ''a2a''
      then Inr entry else Inl ValidationError)"

text \<open>
  What \<^verbatim>\<open>dispatch\<close> takes from outside the repository: the JSON decoder, the UTF-8 codec
  (\<^verbatim>\<open>decode("utf-8", errors="ignore")\<close> drops what it cannot decode and never raises),
  the two clock readings, the fresh UUID, the formatted UTC time and the protocol the
  logger was configured with.
\<close>

record env =
  env_loads :: json_loads
  decode_ignore :: "byte list \<Rightarrow> string"
  encode_utf8 :: "string \<Rightarrow> byte list"
  start_time :: rat
  end_time :: rat
  uuid4 :: string
  utcnow_isoformat :: string
  logger_protocol :: "string option"

text \<open>
  Lines 91 to 100: the request body is read for the three methods only; an exception of
  the read leaves both variables at their initial values.
\<close>

definition capture_request_body ::
  "(byte list \<Rightarrow> string) \<Rightarrow> request \<Rightarrow> exn + (string option \<times> nat)" where
  "capture_request_body decode r =
     (if req_method r \<in> set [''POST'', ''PUT'', ''PATCH''] then
        (case req_body r of
           Inl e \<Rightarrow> if is_Exception e then Inr (None, 0) else Inl e
         | Inr body_bytes \<Rightarrow>
             (let request_body_size = length body_bytes
              in Inr (if request_body_size \<le> BODY_LIMIT then Some (decode body_bytes) else None,
                      request_body_size)))
      else Inr (None, 0))"

fun chunk_bytes :: "(string \<Rightarrow> byte list) \<Rightarrow> chunk \<Rightarrow> byte list" where
  "chunk_bytes encode (StrChunk s) = encode s"
| "chunk_bytes encode (BytesChunk b) = b"

text \<open>
  Lines 105 to 126: the response stream is read to its end, joined, measured, decoded
  when it is within the limit, and the response is built again from the bytes. An
  exception of the stream leaves the variables at their initial values and the
  response as it is, its stream used up.
\<close>

definition capture_response_body ::
  "(string \<Rightarrow> byte list) \<Rightarrow> (byte list \<Rightarrow> string) \<Rightarrow> response
     \<Rightarrow> exn + (string option \<times> nat \<times> response)" where
  "capture_response_body encode decode resp =
     (case body_iterator resp of
        (chunks, Some e) \<Rightarrow>
          if is_Exception e then Inr (None, 0, resp\<lparr>body_iterator := ([], None)\<rparr>) else Inl e
      | (chunks, None) \<Rightarrow>
          (let raw = concat (map (chunk_bytes encode) chunks);
               response_body_size = length raw
           in Inr (if response_body_size \<le> BODY_LIMIT then Some (decode raw) else None,
                   response_body_size,
                   resp\<lparr>body_iterator := ([BytesChunk raw], None)\<rparr>)))"

text \<open>Lines 143 to 148: the three headers that are logged, those present only.\<close>

definition logged_headers :: "(string \<Rightarrow> string option) \<Rightarrow> (string \<times> string) list" where
  "logged_headers h =
     concat (map (\<lambda>k. case h k of None \<Rightarrow> [] | Some v \<Rightarrow> [(k, v)])
                 [''user-agent'', ''content-type'', ''referer''])"

text \<open>
  \<^verbatim>\<open>GT8004Middleware.dispatch\<close>. The result is the entry handed to \<^verbatim>\<open>logger.log\<close>
  together with the response returned to the server, or the exception that leaves the
  method.
\<close>

definition dispatch ::
  "env \<Rightarrow> (request \<Rightarrow> exn + response) \<Rightarrow> request \<Rightarrow> exn + (RequestLogEntry \<times> response)" where
  "dispatch env call_next request =
     (case capture_request_body (decode_ignore env) request of
        Inl e \<Rightarrow> Inl e
      | Inr (request_body', request_body_size') \<Rightarrow>
     (case call_next request of
        Inl e \<Rightarrow> Inl e
      | Inr response0 \<Rightarrow>
     (case capture_response_body (encode_utf8 env) (decode_ignore env) response0 of
        Inl e \<Rightarrow> Inl e
      | Inr (response_body', response_body_size', response') \<Rightarrow>
     (let response_time = (end_time env - start_time env) * 1000;
          protocol' = logger_protocol env;
          path' = req_path request
      in
     (case select_tool_name (env_loads env) protocol' request_body' path' of
        Inl e \<Rightarrow> Inl e
      | Inr tool_name' \<Rightarrow>
     (let headers' = logged_headers (req_headers request)
      in
     (case RequestLogEntry_init
             \<lparr>request_id = uuid4 env,
              http_method = req_method request,
              path = path',
              status_code = resp_status_code response',
              response_ms = response_time,
              tool_name = tool_name',
              protocol = protocol',
              request_body = request_body',
              request_body_size = request_body_size',
              response_body = response_body',
              response_body_size = response_body_size',
              headers = (if headers' \<noteq> [] then Some headers' else None),
              ip_address = req_client request,
              timestamp = utcnow_isoformat env @ ''Z''\<rparr> of
        Inl e \<Rightarrow> Inl e
      | Inr entry \<Rightarrow> Inr (entry, response'))))))))"

section \<open>The batching transport\<close>

text \<open>
  Modelled from the spec: the class \<^verbatim>\<open>BatchTransport\<close> of \<^verbatim>\<open>gt8004/transport.py\<close>, which
  is not among the source files (its tests are). The state is the one of section 3 of
  the spec, with the HTTP client seen as the tests see their mock: the list of POST
  requests made and whether the client has been closed.
\<close>

record 'e post_call =
  post_url :: string
  post_authorization :: string
  post_agent_id :: string
  post_sdk_version :: string
  post_entries :: "'e list"

record 'e BatchTransport =
  ingest_url :: string
  api_key :: string
  agent_id :: string
  batch_size :: int
  flush_interval :: rat
  buffer :: "'e list"
  consecutive_failures :: nat
  circuit_breaker_until :: "rat option"
  timer_running :: bool
  client_posts :: "'e post_call list"
  client_closed :: bool

text \<open>Modelled from the spec: the error taxonomy of the transport.\<close>

datatype transport_exn = ConfigError | TransportError

text \<open>
  Modelled from the spec: construction, with the defaults 50 and 5.0 left to the caller;
  \<^verbatim>\<open>ConfigError\<close> if \<^verbatim>\<open>batch_size\<close> or \<^verbatim>\<open>flush_interval\<close> is not positive.
\<close>

definition BatchTransport_init ::
  "string \<Rightarrow> string \<Rightarrow> string \<Rightarrow> int \<Rightarrow> rat \<Rightarrow> transport_exn + 'e BatchTransport" where
  "BatchTransport_init url key agent n interval =
     (if n \<le> 0 \<or> interval \<le> 0 then Inl ConfigError
      else Inr \<lparr>ingest_url = url, api_key = key, agent_id = agent,
                batch_size = n, flush_interval = interval,
                buffer = [], consecutive_failures = 0, circuit_breaker_until = None,
                timer_running = False, client_posts = [], client_closed = False\<rparr>)"

text \<open>
  Modelled from the spec: what the network answers to one POST, a status code or no
  answer at all. Any 2xx status is a success, anything else a transport failure.
\<close>

datatype send_result = Status nat | NetworkError

fun send_outcome :: "send_result \<Rightarrow> transport_exn + unit" where
  "send_outcome (Status c) = (if 200 \<le> c \<and> c < 300 then Inr () else Inl TransportError)"
| "send_outcome NetworkError = Inl TransportError"

text \<open>Modelled from the spec: the fixed cooldown of the circuit breaker, 60 seconds.\<close>

definition backoff_seconds :: rat where
  "backoff_seconds = 60"

text \<open>
  Modelled from the spec: the SDK version string of a batch; \<^verbatim>\<open>test_types.py\<close> gives its
  value.
\<close>

definition sdk_version :: string where
  "sdk_version = ''python-0.2.0''"

text \<open>Modelled from the spec: the breaker is open while the clock is before the mark.\<close>

definition breaker_open :: "rat \<Rightarrow> 'e BatchTransport \<Rightarrow> bool" where
  "breaker_open now t = (case circuit_breaker_until t of None \<Rightarrow> False | Some u \<Rightarrow> now < u)"

text \<open>
  Modelled from the spec: the POST request for a batch, to the ingest endpoint, with the
  bearer credential, the agent identifier, the SDK version and the entries.
\<close>

definition batch_call :: "'e BatchTransport \<Rightarrow> 'e list \<Rightarrow> 'e post_call" where
  "batch_call t batch =
     \<lparr>post_url = ingest_url t,
      post_authorization = ''Bearer '' @ api_key t,
      post_agent_id = agent_id t,
      post_sdk_version = sdk_version,
      post_entries = batch\<rparr>"

text \<open>
  Modelled from the spec: \<^verbatim>\<open>flush\<close>. Nothing happens on an empty buffer or an open
  breaker. Otherwise the buffer is snapshot and cleared and the batch is posted once;
  \<open>arrived\<close> are the entries other callers append while the send is under way. A
  success resets the failure counter. A failure is recovered here: the counter goes
  up by one, the batch is put back in front of the buffer, and from five failures on
  the breaker is set to the clock plus the cooldown.
\<close>

definition flush_during ::
  "rat \<Rightarrow> send_result \<Rightarrow> 'e list \<Rightarrow> 'e BatchTransport \<Rightarrow> transport_exn + 'e BatchTransport" where
  "flush_during now outcome arrived t =
     (if buffer t = [] then Inr t
      else if breaker_open now t then Inr t
      else
        (let batch = buffer t;
             call = batch_call t batch;
             t1 = t\<lparr>buffer := arrived, client_posts := client_posts t @ [call]\<rparr>
         in case send_outcome outcome of
              Inr _ \<Rightarrow> Inr (t1\<lparr>consecutive_failures := 0\<rparr>)
            | Inl _ \<Rightarrow>
                (let t2 = t1\<lparr>consecutive_failures := consecutive_failures t1 + 1,
                             buffer := batch @ buffer t1\<rparr>
                 in Inr (if consecutive_failures t2 \<ge> 5
                         then t2\<lparr>circuit_breaker_until := Some (now + backoff_seconds)\<rparr>
                         else t2))))"

text \<open>
  Modelled from the spec: a flush during which no other caller appends, as when the
  calls come one after the other.
\<close>

definition flush :: "rat \<Rightarrow> send_result \<Rightarrow> 'e BatchTransport \<Rightarrow> transport_exn + 'e BatchTransport" where
  "flush now outcome t = flush_during now outcome [] t"

text \<open>
  Modelled from the spec: \<^verbatim>\<open>add\<close> appends the entry and, when the buffer has reached
  \<^verbatim>\<open>batch_size\<close>, awaits a flush. \<^verbatim>\<open>log\<close> of the facade is \<^verbatim>\<open>add\<close>.
\<close>

definition add ::
  "rat \<Rightarrow> send_result \<Rightarrow> 'e \<Rightarrow> 'e BatchTransport \<Rightarrow> transport_exn + 'e BatchTransport" where
  "add now outcome entry t =
     (let t1 = t\<lparr>buffer := buffer t @ [entry]\<rparr>
      in if int (length (buffer t1)) \<ge> batch_size t1 then flush now outcome t1 else Inr t1)"

text \<open>
  Modelled from the spec: \<^verbatim>\<open>log\<close> of the facade \<^verbatim>\<open>GT8004Logger\<close> (\<^verbatim>\<open>gt8004/logger.py\<close>, not
  among the source files), an alias of \<^verbatim>\<open>add\<close>.
\<close>

definition log_entry ::
  "rat \<Rightarrow> send_result \<Rightarrow> 'e \<Rightarrow> 'e BatchTransport \<Rightarrow> transport_exn + 'e BatchTransport" where
  "log_entry now outcome entry t = add now outcome entry t"

text \<open>
  Modelled from the spec: \<^verbatim>\<open>close\<close> stops the timer, flushes once more and releases
  the client.
\<close>

definition close ::
  "rat \<Rightarrow> send_result \<Rightarrow> 'e BatchTransport \<Rightarrow> transport_exn + 'e BatchTransport" where
  "close now outcome t =
     (case flush now outcome (t\<lparr>timer_running := False\<rparr>) of
        Inl e \<Rightarrow> Inl e
      | Inr t1 \<Rightarrow> Inr (t1\<lparr>client_closed := True\<rparr>))"

text \<open>A sequence of \<^verbatim>\<open>add\<close> calls, each with its clock reading and network answer.\<close>

fun adds ::
  "(rat \<times> send_result \<times> 'e) list \<Rightarrow> 'e BatchTransport \<Rightarrow> transport_exn + 'e BatchTransport" where
  "adds [] t = Inr t"
| "adds ((now, outcome, entry) # rest) t =
     (case add now outcome entry t of
        Inl e \<Rightarrow> Inl e
      | Inr t' \<Rightarrow> adds rest t')"

section \<open>Concrete inputs\<close>

text \<open>
  A codec for the evaluations: bytes below 128 are the characters they encode, the
  others are dropped, as \<^verbatim>\<open>errors="ignore"\<close> drops what it cannot decode.
\<close>

definition ascii_decode :: "byte list \<Rightarrow> string" where
  "ascii_decode bs = map (\<lambda>w. char_of (unat w)) (filter (\<lambda>w. w < 128) bs)"

definition ascii_encode :: "string \<Rightarrow> byte list" where
  "ascii_encode s = map (\<lambda>c. of_nat (of_char c)) s"

definition env_fixture :: env where
  "env_fixture =
     \<lparr>env_loads = loads_fixture,
      decode_ignore = ascii_decode,
      encode_utf8 = ascii_encode,
      start_time = 0,
      end_time = 1 / 200,
      uuid4 = ''123e4567-e89b-12d3-a456-426614174000'',
      utcnow_isoformat = ''2026-01-01T00:00:00'',
      logger_protocol = Some ''mcp''\<rparr>"

text \<open>A body of 16385 bytes, one more than the limit.\<close>

definition oversized :: "byte list" where
  "oversized = replicate 16385 120"

definition request_fixture :: "string \<Rightarrow> request" where
  "request_fixture m =
     \<lparr>req_method = m,
      req_path = ''/mcp'',
      req_body = Inr oversized,
      req_headers = (\<lambda>k. if k = ''content-type'' then Some ''application/json'' else None),
      req_client = Some ''127.0.0.1''\<rparr>"

text \<open>An application that answers with 16385 bytes in two chunks.\<close>

definition call_next_fixture :: "request \<Rightarrow> exn + response" where
  "call_next_fixture r =
     Inr \<lparr>resp_status_code = 200,
          body_iterator = ([BytesChunk (replicate 16384 120), StrChunk ''x''], None),
          resp_headers = [(''content-type'', ''application/json'')],
          media_type = Some ''application/json''\<rparr>"

text \<open>
  The transport of the tests: \<^verbatim>\<open>ingest_url="http://x/ingest", api_key="k", agent_id="a"\<close>,
  newly constructed, with numbers for entries.
\<close>

definition mock_transport :: "int \<Rightarrow> nat BatchTransport" where
  "mock_transport n =
     \<lparr>ingest_url = ''http://x/ingest'', api_key = ''k'', agent_id = ''a'',
      batch_size = n, flush_interval = 5,
      buffer = [], consecutive_failures = 0, circuit_breaker_until = None,
      timer_running = False, client_posts = [], client_closed = False\<rparr>"

section \<open>Splitting and stripping\<close>

lemma py_rstrip_snoc: "py_rstrip c (s @ [c]) = py_rstrip c s"
  by (simp add: py_rstrip_def)

lemma py_split_nonempty: "py_split c s \<noteq> []"
  by (induction s) (auto split: list.splits)

lemma py_split_single_Nil: "py_split c s = [[]] \<longleftrightarrow> s = []"
  by (cases s) (auto simp: py_split_nonempty split: list.splits)

lemma last_py_split_Nil: "last (py_split c s) = [] \<longleftrightarrow> s = [] \<or> last s = c"
  by (induction s) (auto simp: py_split_nonempty py_split_single_Nil split: list.splits)

lemma py_rstrip_last: "py_rstrip c s \<noteq> [] \<Longrightarrow> last (py_rstrip c s) \<noteq> c"
  unfolding py_rstrip_def using hd_dropWhile[of "\<lambda>x. x = c" "rev s"]
  by (simp add: last_rev)

lemma py_split_snoc: "py_split c (s @ [c]) = py_split c s @ [[]]"
  by (induction s) (auto simp: py_split_nonempty split: list.splits)

lemma py_split_replicate: "py_split c (s @ replicate n c) = py_split c s @ replicate n []"
proof (induction n arbitrary: s)
  case 0
  show ?case by simp
next
  case (Suc n)
  have "py_split c ((s @ [c]) @ replicate n c) = py_split c (s @ [c]) @ replicate n []"
    by (rule Suc.IH)
  then show ?case by (simp add: py_split_snoc)
qed

text \<open>A string is its stripped form followed by the separators that were stripped.\<close>

lemma py_rstrip_decomp: "\<exists>n. s = py_rstrip c s @ replicate n c"
proof -
  have "rev s = takeWhile (\<lambda>x. x = c) (rev s) @ dropWhile (\<lambda>x. x = c) (rev s)"
    by simp
  then have "s = rev (dropWhile (\<lambda>x. x = c) (rev s)) @ rev (takeWhile (\<lambda>x. x = c) (rev s))"
    by (metis rev_append rev_rev_ident)
  moreover have "\<exists>n. rev (takeWhile (\<lambda>x. x = c) (rev s)) = replicate n c"
  proof -
    have "\<forall>x \<in> set (rev (takeWhile (\<lambda>x. x = c) (rev s))). x = c"
      by (auto dest: set_takeWhileD)
    then show ?thesis by (metis replicate_length_same)
  qed
  ultimately show ?thesis by (auto simp: py_rstrip_def)
qed

lemma last_nonempty_segment_padded:
  "last_nonempty_segment (xs @ replicate n []) = last_nonempty_segment xs"
  by (simp add: last_nonempty_segment_def)

lemma last_filter_kept: "xs \<noteq> [] \<Longrightarrow> P (last xs) \<Longrightarrow> last (filter P xs) = last xs"
  by (cases xs rule: rev_cases) auto

lemma last_nonempty_segment_last:
  assumes "xs \<noteq> []" "last xs \<noteq> []"
  shows "last_nonempty_segment xs = last xs"
proof -
  have "last xs \<in> set (filter (\<lambda>s. s \<noteq> []) xs)"
    using assms by simp
  then have ne: "filter (\<lambda>s. s \<noteq> []) xs \<noteq> []"
    by (metis empty_iff list.set(1))
  have "last (filter (\<lambda>s. s \<noteq> []) xs) = last xs"
    using assms by (intro last_filter_kept) auto
  with ne show ?thesis
    by (auto simp: last_nonempty_segment_def split: list.splits)
qed

lemma last_segment_of_stripped:
  "last (py_split c (py_rstrip c p)) = last_nonempty_segment (py_split c (py_rstrip c p))"
proof (cases "py_rstrip c p = []")
  case True
  then show ?thesis by (simp add: last_nonempty_segment_def)
next
  case False
  then have "last (py_split c (py_rstrip c p)) \<noteq> []"
    using py_rstrip_last[of c p] by (simp add: last_py_split_Nil)
  then show ?thesis
    using last_nonempty_segment_last[OF py_split_nonempty, of c "py_rstrip c p"] by simp
qed

lemma last_nonempty_segment_unstripped:
  "last_nonempty_segment (py_split c (py_rstrip c p)) = last_nonempty_segment (py_split c p)"
proof -
  obtain n where "p = py_rstrip c p @ replicate n c"
    using py_rstrip_decomp by blast
  then have "py_split c p = py_split c (py_rstrip c p) @ replicate n []"
    by (metis py_split_replicate)
  then show ?thesis by (simp add: last_nonempty_segment_padded)
qed

section \<open>The HTTP extractor\<close>

text \<open>
  C7. For every path \<open>p\<close> the HTTP extractor gives the same result on \<open>p\<close> and on
  \<open>p\<close> followed by a slash; the result is the last non-empty segment of \<open>p\<close>, whether
  the trailing slashes are stripped before the split or not, and the empty string when
  there is no such segment; the root path gives the empty string.
\<close>

theorem extract_http_trailing_slash:
  "extract_http_tool_name (p @ ''/'') = extract_http_tool_name p
   \<and> extract_http_tool_name ''/'' = PStr []
   \<and> extract_http_tool_name p
       = PStr (last_nonempty_segment (py_split CHR ''/'' (py_rstrip CHR ''/'' p)))
   \<and> extract_http_tool_name p = PStr (last_nonempty_segment (py_split CHR ''/'' p))"
proof -
  have a: "extract_http_tool_name (p @ ''/'') = extract_http_tool_name p"
    by (simp add: extract_http_tool_name_def py_rstrip_snoc)
  have b: "extract_http_tool_name ''/'' = PStr []"
    by (simp add: extract_http_tool_name_def py_rstrip_def)
  have c: "extract_http_tool_name p
             = PStr (last_nonempty_segment (py_split CHR ''/'' (py_rstrip CHR ''/'' p)))"
    by (simp add: extract_http_tool_name_def Let_def py_split_nonempty last_segment_of_stripped)
  have d: "extract_http_tool_name p = PStr (last_nonempty_segment (py_split CHR ''/'' p))"
    using c by (simp add: last_nonempty_segment_unstripped)
  from a b c d show ?thesis by blast
qed

section \<open>The MCP and A2A extractors\<close>

lemma mcp_try_decoded:
  "loads b = Inr data \<Longrightarrow>
   mcp_try loads b =
     (case data of
        PDict kvs \<Rightarrow>
          if map_of kvs ''method'' = Some (PStr ''tools/call'') then
            (case map_of kvs ''params'' of
               None \<Rightarrow> Inr (Some PNone)
             | Some (PDict ps) \<Rightarrow>
                 Inr (Some (case map_of ps ''name'' of Some v \<Rightarrow> v | None \<Rightarrow> PNone))
             | Some _ \<Rightarrow> Inl AttributeError)
          else Inr None
      | _ \<Rightarrow> Inl AttributeError)"
  by (cases data) (auto simp: mcp_try_def split: option.splits pyval.splits)

lemma extract_mcp_decoded:
  assumes "loads b = Inr data" "b \<noteq> []"
  shows "extract_mcp_tool_name loads (Some b) =
           Inr (case mcp_params_name data of Some v \<Rightarrow> v | None \<Rightarrow> PNone)"
  using assms
  by (simp add: extract_mcp_tool_name_def mcp_try_decoded mcp_params_name_def
           split: pyval.splits option.splits)

lemma extract_mcp_rejected:
  assumes "loads b = Inl e" "extract_handled e"
  shows "extract_mcp_tool_name loads (Some b) = Inr PNone"
  using assms by (simp add: extract_mcp_tool_name_def mcp_try_def)

lemma a2a_try_decoded:
  "loads b = Inr data \<Longrightarrow>
   a2a_try loads b = (case data of PDict kvs \<Rightarrow> Inr (a2a_skill data) | _ \<Rightarrow> Inl AttributeError)"
  by (cases data) (auto simp: a2a_try_def a2a_skill_def split: option.splits)

text \<open>The fallback written out in the A2A extractor is the HTTP extractor.\<close>

lemma a2a_fallback_is_http:
  "(let segments = py_split CHR ''/'' (py_rstrip CHR ''/'' p)
    in if segments \<noteq> [] then PStr (last segments) else PNone) = extract_http_tool_name p"
  by (simp add: extract_http_tool_name_def)

lemma extract_a2a_decoded:
  assumes "loads b = Inr data" "b \<noteq> []"
  shows "extract_a2a_tool_name loads (Some b) p =
           Inr (case a2a_skill data of Some v \<Rightarrow> v | None \<Rightarrow> extract_http_tool_name p)"
  using assms
  by (cases data)
     (simp_all add: extract_a2a_tool_name_def a2a_try_decoded a2a_fallback_is_http [symmetric]
        a2a_skill_def split: option.splits)

lemma extract_a2a_rejected:
  assumes "loads b = Inl e" "extract_handled e"
  shows "extract_a2a_tool_name loads (Some b) p = Inr (extract_http_tool_name p)"
  using assms
  by (simp add: extract_a2a_tool_name_def a2a_try_def a2a_fallback_is_http [symmetric])

lemma extract_a2a_no_body:
  "body = None \<or> body = Some [] \<Longrightarrow>
   extract_a2a_tool_name loads body p = Inr (extract_http_tool_name p)"
  by (auto simp: extract_a2a_tool_name_def a2a_fallback_is_http [symmetric])

text \<open>
  An exception of the decoder that the handler does not name leaves both extractors
  and the protocol switch.
\<close>

lemma extract_mcp_unhandled:
  assumes "loads b = Inl e" "\<not> extract_handled e" "b \<noteq> []"
  shows "extract_mcp_tool_name loads (Some b) = Inl e"
  using assms by (simp add: extract_mcp_tool_name_def mcp_try_def)

lemma extract_a2a_unhandled:
  assumes "loads b = Inl e" "\<not> extract_handled e" "b \<noteq> []"
  shows "extract_a2a_tool_name loads (Some b) p = Inl e"
  using assms by (simp add: extract_a2a_tool_name_def a2a_try_def)

text \<open>
  C5. The claim has the MCP extractor return null for every body that gives no
  \<open>params.name\<close>. The code does so where the decoder returns a document or raises
  \<^verbatim>\<open>JSONDecodeError\<close>; on the body of 4301 digits, a JSON number and no mapping, the
  decoder raises \<^verbatim>\<open>ValueError\<close>, which the handler does not name, and the extractor
  raises it where the claim says null.
\<close>

theorem extract_mcp_raises_on_long_integer:
  "loads_fixture (replicate 4301 CHR ''1'') = Inl ValueError
   \<and> extract_mcp_tool_name loads_fixture (Some (replicate 4301 CHR ''1'')) = Inl ValueError
   \<and> extract_mcp_tool_name loads_fixture (Some (replicate 4301 CHR ''1'')) \<noteq> Inr PNone"
proof -
  have l: "loads_fixture (replicate 4301 CHR ''1'') = Inl ValueError"
    by (simp add: loads_fixture_def)
  have "extract_mcp_tool_name loads_fixture (Some (replicate 4301 CHR ''1'')) = Inl ValueError"
    by (rule extract_mcp_unhandled [where loads = loads_fixture, OF l]) simp_all
  with l show ?thesis by simp
qed

text \<open>
  C6, as the code has it. For every optional body and every path, the A2A extractor
  returns the value of \<open>skill_id\<close> when the body is not empty and decodes to a mapping
  whose \<open>skill_id\<close> counts as true; it returns the HTTP extraction of the path when
  there is no body or an empty one, when the decoder rejects the body with
  \<^verbatim>\<open>JSONDecodeError\<close>, and when the body decodes to a document that is no mapping or to
  a mapping whose \<open>skill_id\<close> is absent or counts as false. Nothing is said of a body on
  which the decoder raises another exception.
\<close>

theorem extract_a2a_skill_or_path:
  "(b \<noteq> [] \<and> loads b = Inr (PDict kvs) \<and> map_of kvs ''skill_id'' = Some v \<and> truthy v \<longrightarrow>
      extract_a2a_tool_name loads (Some b) p = Inr v)
   \<and> (body = None \<or> body = Some []
        \<or> (body = Some b \<and> loads b = Inl JSONDecodeError)
        \<or> (body = Some b \<and> loads b = Inr d \<and> a2a_skill d = None) \<longrightarrow>
      extract_a2a_tool_name loads body p = Inr (extract_http_tool_name p))"
proof (intro conjI impI)
  assume a: "b \<noteq> [] \<and> loads b = Inr (PDict kvs) \<and> map_of kvs ''skill_id'' = Some v \<and> truthy v"
  then have "a2a_skill (PDict kvs) = Some v"
    by (simp add: a2a_skill_def)
  with a show "extract_a2a_tool_name loads (Some b) p = Inr v"
    by (simp add: extract_a2a_decoded)
next
  assume "body = None \<or> body = Some []
        \<or> (body = Some b \<and> loads b = Inl JSONDecodeError)
        \<or> (body = Some b \<and> loads b = Inr d \<and> a2a_skill d = None)"
  then show "extract_a2a_tool_name loads body p = Inr (extract_http_tool_name p)"
  proof (elim disjE conjE)
    assume "body = None"
    then show ?thesis by (simp add: extract_a2a_no_body)
  next
    assume "body = Some []"
    then show ?thesis by (simp add: extract_a2a_no_body)
  next
    assume "body = Some b" "loads b = Inl JSONDecodeError"
    then show ?thesis by (simp add: extract_a2a_rejected)
  next
    assume d: "body = Some b" "loads b = Inr d" "a2a_skill d = None"
    show ?thesis
    proof (cases "b = []")
      case True
      with d(1) show ?thesis by (simp add: extract_a2a_no_body)
    next
      case False
      with d show ?thesis by (simp add: extract_a2a_decoded)
    qed
  qed
qed

text \<open>
  The bodies of the tests: a mapping with \<open>skill_id\<close>, a text that is no JSON, a mapping
  whose \<open>skill_id\<close> is empty.
\<close>

theorem extract_a2a_skill_or_path_witness:
  \<open>extract_a2a_tool_name loads_fixture
      (Some ''{"skill_id": "translate", "input": "hello"}'') ''/a2a/tasks''
     = Inr (PStr ''translate'')
   \<and> extract_a2a_tool_name loads_fixture (Some ''bad json'') ''/api/search''
     = Inr (PStr ''search'')
   \<and> extract_a2a_tool_name loads_fixture (Some ''{"skill_id": ""}'') ''/a2a/tasks''
     = Inr (PStr ''tasks'')\<close>
proof -
  have l1: \<open>loads_fixture ''{"skill_id": "translate", "input": "hello"}''
              = Inr (PDict [(''skill_id'', PStr ''translate''), (''input'', PStr ''hello'')])\<close>
    by (simp add: loads_fixture_def)
  have l2: \<open>loads_fixture ''bad json'' = Inl JSONDecodeError\<close>
    by (simp add: loads_fixture_def)
  have l3: \<open>loads_fixture ''{"skill_id": ""}'' = Inr (PDict [(''skill_id'', PStr [])])\<close>
    by (simp add: loads_fixture_def)
  have h1: \<open>extract_http_tool_name ''/api/search'' = PStr ''search''\<close>
    by (simp add: extract_http_tool_name_def py_rstrip_def)
  have h2: \<open>extract_http_tool_name ''/a2a/tasks'' = PStr ''tasks''\<close>
    by (simp add: extract_http_tool_name_def py_rstrip_def)
  have a: \<open>extract_a2a_tool_name loads_fixture
      (Some ''{"skill_id": "translate", "input": "hello"}'') ''/a2a/tasks''
     = Inr (PStr ''translate'')\<close>
    using extract_a2a_skill_or_path
      [where loads = loads_fixture
         and b = \<open>''{"skill_id": "translate", "input": "hello"}''\<close>
         and kvs = \<open>[(''skill_id'', PStr ''translate''), (''input'', PStr ''hello'')]\<close>
         and v = \<open>PStr ''translate''\<close> and p = \<open>''/a2a/tasks''\<close>]
      l1
    by simp
  have b: \<open>extract_a2a_tool_name loads_fixture (Some ''bad json'') ''/api/search''
     = Inr (PStr ''search'')\<close>
    using extract_a2a_skill_or_path
      [where loads = loads_fixture and b = \<open>''bad json''\<close> and body = \<open>Some ''bad json''\<close>
         and p = \<open>''/api/search''\<close>]
      l2 h1
    by simp
  have c: \<open>extract_a2a_tool_name loads_fixture (Some ''{"skill_id": ""}'') ''/a2a/tasks''
     = Inr (PStr ''tasks'')\<close>
    using extract_a2a_skill_or_path
      [where loads = loads_fixture and b = \<open>''{"skill_id": ""}''\<close>
         and body = \<open>Some ''{"skill_id": ""}''\<close>
         and d = \<open>PDict [(''skill_id'', PStr [])]\<close> and p = \<open>''/a2a/tasks''\<close>]
      l3 h2
    by (simp add: a2a_skill_def)
  from a b c show ?thesis by simp
qed

text \<open>
  C6 as the claim states it fails twice. The body \<^verbatim>\<open>{"skill_id": ""}\<close> decodes to a
  mapping whose \<open>skill_id\<close> is the empty string, which is not null, yet the extractor
  returns the last segment of the path. And the body of 2000 opening brackets does not
  decode, yet the extractor does not return the fallback: the \<^verbatim>\<open>RecursionError\<close> of the
  decoder leaves it.
\<close>

theorem extract_a2a_empty_skill_counterexample:
  \<open>loads_fixture ''{"skill_id": ""}'' = Inr (PDict [(''skill_id'', PStr [])])
   \<and> PStr [] \<noteq> PNone
   \<and> extract_a2a_tool_name loads_fixture (Some ''{"skill_id": ""}'') ''/a2a/tasks''
       = Inr (PStr ''tasks'')
   \<and> extract_a2a_tool_name loads_fixture (Some ''{"skill_id": ""}'') ''/a2a/tasks''
       \<noteq> Inr (PStr [])
   \<and> loads_fixture (replicate 2000 CHR ''['') = Inl RecursionError
   \<and> extract_a2a_tool_name loads_fixture (Some (replicate 2000 CHR ''['')) ''/a2a/tasks''
       = Inl RecursionError\<close>
  by (simp add: loads_fixture_def extract_a2a_tool_name_def a2a_try_def py_rstrip_def)

text \<open>
  C8. The claim has the extractors return for every protocol, body and path and never
  raise. The handlers name \<^verbatim>\<open>JSONDecodeError\<close>, \<^verbatim>\<open>TypeError\<close> and \<^verbatim>\<open>AttributeError\<close>
  only: on the body of 2000 opening brackets the \<^verbatim>\<open>RecursionError\<close> of the decoder
  leaves the A2A extractor, and on the body of 4301 digits its \<^verbatim>\<open>ValueError\<close> leaves
  the protocol switch of \<^verbatim>\<open>dispatch\<close> under \<^verbatim>\<open>"mcp"\<close>. Where the extractors do return,
  the value need not be a string: the number under \<open>params.name\<close> is returned as it is.
\<close>

theorem extractors_raise_unhandled:
  \<open>extract_a2a_tool_name loads_fixture (Some (replicate 2000 CHR ''['')) ''/a2a/tasks''
      = Inl RecursionError
   \<and> select_tool_name loads_fixture (Some ''mcp'') (Some (replicate 4301 CHR ''1'')) ''/mcp''
      = Inl ValueError
   \<and> extract_mcp_tool_name loads_fixture
        (Some ''{"method": "tools/call", "params": {"name": 5}}'') = Inr (PInt 5)\<close>
proof -
  have r: "loads_fixture (replicate 2000 CHR ''['') = Inl RecursionError"
    by (simp add: loads_fixture_def)
  have v: "loads_fixture (replicate 4301 CHR ''1'') = Inl ValueError"
    by (simp add: loads_fixture_def)
  have a: "extract_a2a_tool_name loads_fixture (Some (replicate 2000 CHR ''['')) ''/a2a/tasks''
      = Inl RecursionError"
    by (rule extract_a2a_unhandled [where loads = loads_fixture, OF r]) simp_all
  have m: "extract_mcp_tool_name loads_fixture (Some (replicate 4301 CHR ''1'')) = Inl ValueError"
    by (rule extract_mcp_unhandled [where loads = loads_fixture, OF v]) simp_all
  have n: \<open>extract_mcp_tool_name loads_fixture
        (Some ''{"method": "tools/call", "params": {"name": 5}}'') = Inr (PInt 5)\<close>
    by (simp add: loads_fixture_def extract_mcp_tool_name_def mcp_try_def)
  from a m n show ?thesis by (simp add: select_tool_name_def)
qed

section \<open>What the middleware logs\<close>

text \<open>When \<^verbatim>\<open>dispatch\<close> logs an entry, every step before the log has returned.\<close>

lemma dispatch_logged:
  assumes "dispatch env call_next r = Inr (entry, resp')"
  shows "capture_request_body (decode_ignore env) r
             = Inr (request_body entry, request_body_size entry)"
    and "\<exists>resp0. call_next r = Inr resp0
         \<and> capture_response_body (encode_utf8 env) (decode_ignore env) resp0
             = Inr (response_body entry, response_body_size entry, resp')"
    and "select_tool_name (env_loads env) (logger_protocol env) (request_body entry) (req_path r)
             = Inr (tool_name entry)"
    and "protocol entry = logger_protocol env"
  using assms
  by (auto simp: dispatch_def Let_def RequestLogEntry_init_def
        split: sum.splits prod.splits if_splits)

lemma capture_request_body_read:
  assumes "req_method r \<in> set [''POST'', ''PUT'', ''PATCH'']"
      and "req_body r = Inr bs"
  shows "capture_request_body decode r
           = Inr (if length bs \<le> BODY_LIMIT then Some (decode bs) else None, length bs)"
  unfolding capture_request_body_def Let_def
  by (simp only: assms if_True sum.case)

lemma capture_response_body_complete:
  assumes "body_iterator resp = (chunks, None)"
  shows "capture_response_body encode decode resp
           = Inr (if length (concat (map (chunk_bytes encode) chunks)) \<le> BODY_LIMIT
                  then Some (decode (concat (map (chunk_bytes encode) chunks))) else None,
                  length (concat (map (chunk_bytes encode) chunks)),
                  resp\<lparr>body_iterator := ([BytesChunk (concat (map (chunk_bytes encode) chunks))], None)\<rparr>)"
  unfolding capture_response_body_def Let_def
  by (simp only: assms prod.case option.case)


lemma dispatch_request_fields:
  assumes d: "dispatch env call_next r = Inr (entry, resp')"
      and m: "req_method r \<in> set [''POST'', ''PUT'', ''PATCH'']"
      and b: "req_body r = Inr bs"
  shows "request_body_size entry = length bs"
    and "request_body entry = (if length bs \<le> BODY_LIMIT then Some (decode_ignore env bs) else None)"
proof -
  from dispatch_logged(1) [OF d] have "Inr (request_body entry, request_body_size entry)
       = (Inr (if length bs \<le> BODY_LIMIT then Some (decode_ignore env bs) else None, length bs)
            :: exn + (string option \<times> nat))"
    by (simp only: capture_request_body_read [OF m b])
  then show "request_body_size entry = length bs"
    and "request_body entry = (if length bs \<le> BODY_LIMIT then Some (decode_ignore env bs) else None)"
    by (simp_all only: sum.inject prod.inject)
qed

lemma dispatch_response_fields:
  assumes d: "dispatch env call_next r = Inr (entry, resp')"
      and c: "call_next r = Inr resp"
      and i: "body_iterator resp = (chunks, None)"
  shows "response_body_size entry = length (concat (map (chunk_bytes (encode_utf8 env)) chunks))"
    and "response_body entry
           = (if length (concat (map (chunk_bytes (encode_utf8 env)) chunks)) \<le> BODY_LIMIT
              then Some (decode_ignore env (concat (map (chunk_bytes (encode_utf8 env)) chunks)))
              else None)"
proof -
  from dispatch_logged(2) [OF d] obtain resp0 where
    nxt: "call_next r = Inr resp0" and
    rsp: "capture_response_body (encode_utf8 env) (decode_ignore env) resp0
            = Inr (response_body entry, response_body_size entry, resp')"
    by blast
  from c nxt have "resp0 = resp" by simp
  with rsp have "capture_response_body (encode_utf8 env) (decode_ignore env) resp
            = Inr (response_body entry, response_body_size entry, resp')"
    by simp
  then have eq: "Inr (response_body entry, response_body_size entry, resp')
     = (Inr (if length (concat (map (chunk_bytes (encode_utf8 env)) chunks)) \<le> BODY_LIMIT
            then Some (decode_ignore env (concat (map (chunk_bytes (encode_utf8 env)) chunks)))
            else None,
            length (concat (map (chunk_bytes (encode_utf8 env)) chunks)),
            resp\<lparr>body_iterator :=
                   ([BytesChunk (concat (map (chunk_bytes (encode_utf8 env)) chunks))], None)\<rparr>)
        :: exn + (string option \<times> nat \<times> response))"
    by (simp only: capture_response_body_complete [OF i])
  then show "response_body_size entry = length (concat (map (chunk_bytes (encode_utf8 env)) chunks))"
    and "response_body entry
           = (if length (concat (map (chunk_bytes (encode_utf8 env)) chunks)) \<le> BODY_LIMIT
              then Some (decode_ignore env (concat (map (chunk_bytes (encode_utf8 env)) chunks)))
              else None)"
    by (simp_all only: sum.inject prod.inject)
qed

text \<open>
  C9. In every entry \<^verbatim>\<open>dispatch\<close> logs, the size field of a body that was read holds
  the full byte length of the body; a body of more than 16384 bytes leaves the body field
  null, and a body within the limit is decoded whole, so the field never holds a
  truncated prefix. This holds for the request body (read for POST, PUT and PATCH) and
  for the response body (read from the stream to its end).
\<close>

theorem dispatch_drops_oversized_body:
  assumes "dispatch env call_next r = Inr (entry, resp')"
  shows "(req_method r \<in> set [''POST'', ''PUT'', ''PATCH''] \<longrightarrow> req_body r = Inr bs \<longrightarrow>
            request_body_size entry = length bs
          \<and> (BODY_LIMIT < length bs \<longrightarrow> request_body entry = None)
          \<and> (length bs \<le> BODY_LIMIT \<longrightarrow> request_body entry = Some (decode_ignore env bs)))
       \<and> (call_next r = Inr resp \<longrightarrow> body_iterator resp = (chunks, None) \<longrightarrow>
            response_body_size entry = length (concat (map (chunk_bytes (encode_utf8 env)) chunks))
          \<and> (BODY_LIMIT < length (concat (map (chunk_bytes (encode_utf8 env)) chunks)) \<longrightarrow>
                response_body entry = None)
          \<and> (length (concat (map (chunk_bytes (encode_utf8 env)) chunks)) \<le> BODY_LIMIT \<longrightarrow>
                response_body entry
                  = Some (decode_ignore env (concat (map (chunk_bytes (encode_utf8 env)) chunks)))))"
proof (intro conjI impI)
  assume m: "req_method r \<in> set [''POST'', ''PUT'', ''PATCH'']" and b: "req_body r = Inr bs"
  note f = dispatch_request_fields [OF assms m b]
  show "request_body_size entry = length bs" by (rule f(1))
  { assume "BODY_LIMIT < length bs"
    then have "\<not> length bs \<le> BODY_LIMIT" by simp
    then show "request_body entry = None" by (simp only: f(2) if_False) }
  { assume "length bs \<le> BODY_LIMIT"
    then show "request_body entry = Some (decode_ignore env bs)" by (simp only: f(2) if_True) }
next
  assume c: "call_next r = Inr resp" and i: "body_iterator resp = (chunks, None)"
  note f = dispatch_response_fields [OF assms c i]
  let ?raw = "concat (map (chunk_bytes (encode_utf8 env)) chunks)"
  show "response_body_size entry = length ?raw" by (rule f(1))
  { assume "BODY_LIMIT < length ?raw"
    then have "\<not> length ?raw \<le> BODY_LIMIT" by simp
    then show "response_body entry = None" by (simp only: f(2) if_False) }
  { assume "length ?raw \<le> BODY_LIMIT"
    then show "response_body entry = Some (decode_ignore env ?raw)" by (simp only: f(2) if_True) }
qed

lemma fixture_dispatch:
  "\<exists>entry resp'. dispatch env_fixture call_next_fixture (request_fixture m) = Inr (entry, resp')"
  by (simp add: dispatch_def env_fixture_def call_next_fixture_def request_fixture_def
        capture_request_body_def capture_response_body_def Let_def BODY_LIMIT_def oversized_def
        select_tool_name_def extract_mcp_tool_name_def RequestLogEntry_init_def ascii_encode_def)

text \<open>
  A POST request with 16385 bytes, answered with 16385 bytes: the entry holds no body
  on either side and both sizes in full.
\<close>

theorem dispatch_drops_oversized_body_witness:
  "\<exists>entry resp'.
     dispatch env_fixture call_next_fixture (request_fixture ''POST'') = Inr (entry, resp')
     \<and> request_body entry = None \<and> request_body_size entry = 16385
     \<and> response_body entry = None \<and> response_body_size entry = 16385"
proof -
  obtain entry resp' where
    d: "dispatch env_fixture call_next_fixture (request_fixture ''POST'') = Inr (entry, resp')"
    using fixture_dispatch by blast
  have "request_body entry = None \<and> request_body_size entry = 16385
     \<and> response_body entry = None \<and> response_body_size entry = 16385"
    using dispatch_drops_oversized_body [OF d, of oversized
                "\<lparr>resp_status_code = 200,
                  body_iterator = ([BytesChunk (replicate 16384 120), StrChunk ''x''], None),
                  resp_headers = [(''content-type'', ''application/json'')],
                  media_type = Some ''application/json''\<rparr>"
                "[BytesChunk (replicate 16384 120), StrChunk ''x'']"]
    by (simp add: request_fixture_def call_next_fixture_def oversized_def BODY_LIMIT_def
          env_fixture_def ascii_encode_def)
  with d show ?thesis by blast
qed

lemma capture_request_body_other_method:
  "req_method r \<notin> set [''POST'', ''PUT'', ''PATCH''] \<Longrightarrow>
   capture_request_body decode r = Inr (None, 0)"
  unfolding capture_request_body_def by (simp only: if_False)

lemma select_tool_name_no_body:
  "select_tool_name loads proto None p =
     Inr (if proto = Some ''mcp'' then PNone else extract_http_tool_name p)"
  by (simp add: select_tool_name_def extract_mcp_tool_name_def extract_a2a_tool_name_def
        a2a_fallback_is_http)

lemma dispatch_progress:
  assumes "capture_request_body (decode_ignore env) r = Inr (None, 0)"
      and "call_next r = Inr resp" and "body_iterator resp = (chunks, None)"
      and "logger_protocol env = None \<or> logger_protocol env = Some ''mcp''
           \<or> logger_protocol env = Some ''a2a''"
  shows "\<exists>entry resp'. dispatch env call_next r = Inr (entry, resp')"
  unfolding dispatch_def Let_def
  using assms(4)
  by (simp add: assms(1,2) capture_response_body_complete [OF assms(3)]
        select_tool_name_no_body RequestLogEntry_init_def)

text \<open>
  C10. For every request whose method is not POST, PUT or PATCH the body is not read:
  the capture gives null and 0 whatever the body is, the logged entry has
  \<^verbatim>\<open>request_body\<close> null and \<^verbatim>\<open>request_body_size\<close> 0, and the tool name is the one the
  extractors give on a null body, null under \<^verbatim>\<open>"mcp"\<close> and the path segment under
  \<^verbatim>\<open>"a2a"\<close>. Such a request is logged whenever the application answers, its stream
  ends and the protocol is one the entry accepts.
\<close>

theorem dispatch_reads_body_by_method:
  assumes "req_method r \<notin> set [''POST'', ''PUT'', ''PATCH'']"
  shows "capture_request_body decode r = Inr (None, 0)
       \<and> (dispatch env call_next r = Inr (entry, resp') \<longrightarrow>
            request_body entry = None \<and> request_body_size entry = 0
          \<and> select_tool_name (env_loads env) (logger_protocol env) None (req_path r)
              = Inr (tool_name entry)
          \<and> (logger_protocol env = Some ''mcp'' \<longrightarrow> tool_name entry = PNone)
          \<and> (logger_protocol env = Some ''a2a'' \<longrightarrow>
                tool_name entry = extract_http_tool_name (req_path r)))
       \<and> (call_next r = Inr resp \<longrightarrow> body_iterator resp = (chunks, None) \<longrightarrow>
            (logger_protocol env = None \<or> logger_protocol env = Some ''mcp''
              \<or> logger_protocol env = Some ''a2a'') \<longrightarrow>
            (\<exists>e r'. dispatch env call_next r = Inr (e, r')))"
proof (intro conjI impI)
  have cap: "capture_request_body d r = Inr (None, 0)" for d
    using assms by (rule capture_request_body_other_method)
  show "capture_request_body decode r = Inr (None, 0)" by (rule cap)
  { assume d: "dispatch env call_next r = Inr (entry, resp')"
    from dispatch_logged(1) [OF d] cap [of "decode_ignore env"]
    have "Inr (request_body entry, request_body_size entry)
            = (Inr (None, 0) :: exn + (string option \<times> nat))"
      by simp
    then show rb: "request_body entry = None" and "request_body_size entry = 0"
      by (simp_all only: sum.inject prod.inject)
    from dispatch_logged(3) [OF d] rb
    show tn: "select_tool_name (env_loads env) (logger_protocol env) None (req_path r)
             = Inr (tool_name entry)" by simp
    { assume "logger_protocol env = Some ''mcp''"
      with tn show "tool_name entry = PNone" by (simp add: select_tool_name_no_body) }
    { assume "logger_protocol env = Some ''a2a''"
      with tn show "tool_name entry = extract_http_tool_name (req_path r)"
        by (simp add: select_tool_name_no_body) } }
  { assume "call_next r = Inr resp" and "body_iterator resp = (chunks, None)"
      and "logger_protocol env = None \<or> logger_protocol env = Some ''mcp''
              \<or> logger_protocol env = Some ''a2a''"
    then show "\<exists>e r'. dispatch env call_next r = Inr (e, r')"
      by (rule dispatch_progress [OF cap]) }
qed

text \<open>A GET request under the protocol \<^verbatim>\<open>"mcp"\<close>: no body, size 0, no tool name.\<close>

theorem dispatch_reads_body_by_method_witness:
  "''GET'' \<notin> set [''POST'', ''PUT'', ''PATCH'']
   \<and> (\<exists>entry resp'.
        dispatch env_fixture call_next_fixture (request_fixture ''GET'') = Inr (entry, resp')
        \<and> request_body entry = None \<and> request_body_size entry = 0
        \<and> tool_name entry = PNone)"
proof -
  have m: "req_method (request_fixture ''GET'') \<notin> set [''POST'', ''PUT'', ''PATCH'']"
    by (simp add: request_fixture_def)
  obtain entry resp' where
    d: "dispatch env_fixture call_next_fixture (request_fixture ''GET'') = Inr (entry, resp')"
    using fixture_dispatch by blast
  have "request_body entry = None \<and> request_body_size entry = 0 \<and> tool_name entry = PNone"
    using dispatch_reads_body_by_method [OF m, of ascii_decode env_fixture call_next_fixture entry resp'] d
    by (simp add: env_fixture_def)
  with d show ?thesis by simp
qed

section \<open>The batching transport: buffer, failures and breaker\<close>

text \<open>The transport of the evaluations is the one the constructor builds.\<close>

lemma mock_transport_constructed:
  "0 < n \<Longrightarrow> BatchTransport_init ''http://x/ingest'' ''k'' ''a'' n 5 = Inr (mock_transport n)"
  by (simp add: BatchTransport_init_def mock_transport_def)

lemma flush_during_noop:
  "buffer t = [] \<or> breaker_open now t \<Longrightarrow> flush_during now outcome arrived t = Inr t"
  by (auto simp: flush_during_def)

lemma flush_during_success:
  assumes "buffer t \<noteq> []" "\<not> breaker_open now t" "send_outcome outcome = Inr u"
  shows "flush_during now outcome arrived t =
           Inr (t\<lparr>buffer := arrived,
                  client_posts := client_posts t @ [batch_call t (buffer t)],
                  consecutive_failures := 0\<rparr>)"
  using assms by (simp add: flush_during_def Let_def batch_call_def)

lemma flush_during_failure:
  assumes "buffer t \<noteq> []" "\<not> breaker_open now t" "send_outcome outcome = Inl err"
  shows "flush_during now outcome arrived t =
           Inr (t\<lparr>buffer := buffer t @ arrived,
                  client_posts := client_posts t @ [batch_call t (buffer t)],
                  consecutive_failures := consecutive_failures t + 1,
                  circuit_breaker_until :=
                    (if consecutive_failures t + 1 \<ge> 5 then Some (now + backoff_seconds)
                     else circuit_breaker_until t)\<rparr>)"
  using assms by (simp add: flush_during_def Let_def batch_call_def)

lemma flush_during_total: "\<exists>t'. flush_during now outcome arrived t = Inr t'"
  by (cases "send_outcome outcome") (simp_all add: flush_during_def Let_def)

lemma add_total: "\<exists>t'. add now outcome e t = Inr t'"
  by (simp add: add_def Let_def flush_def flush_during_total)

lemma close_total: "\<exists>t'. close now outcome t = Inr t'"
proof -
  obtain t1 where "flush_during now outcome [] (t\<lparr>timer_running := False\<rparr>) = Inr t1"
    using flush_during_total by blast
  then show ?thesis by (simp add: close_def flush_def)
qed

lemma add_below:
  "int (length (buffer t)) + 1 < batch_size t \<Longrightarrow>
   add now outcome e t = Inr (t\<lparr>buffer := buffer t @ [e]\<rparr>)"
  by (simp add: add_def Let_def)

lemma adds_below:
  "int (length (buffer t)) + int (length calls) < batch_size t \<Longrightarrow>
   adds calls t = Inr (t\<lparr>buffer := buffer t @ map (\<lambda>c. snd (snd c)) calls\<rparr>)"
proof (induction calls arbitrary: t)
  case Nil
  show ?case by simp
next
  case (Cons c calls)
  obtain now outcome e where c: "c = (now, outcome, e)" by (cases c) auto
  from Cons.prems have 1: "int (length (buffer t)) + 1 < batch_size t" by simp
  let ?t1 = "t\<lparr>buffer := buffer t @ [e]\<rparr>"
  have "int (length (buffer ?t1)) + int (length calls) < batch_size ?t1"
    using Cons.prems by simp
  from Cons.IH [OF this] show ?case
    by (simp add: c add_below [OF 1])
qed

lemma adds_append:
  "adds (xs @ ys) t = (case adds xs t of Inl e \<Rightarrow> Inl e | Inr t' \<Rightarrow> adds ys t')"
  by (induction xs arbitrary: t) (auto split: sum.splits)

lemma add_reaching:
  assumes "int (length (buffer t)) + 1 = batch_size t" "\<not> breaker_open now t"
  shows "add now outcome e t = flush_during now outcome [] (t\<lparr>buffer := buffer t @ [e]\<rparr>)"
    and "\<not> breaker_open now (t\<lparr>buffer := buffer t @ [e]\<rparr>)"
  using assms by (simp_all add: add_def Let_def flush_def breaker_open_def)

text \<open>
  C1, as the specification's transport has it. For every transport with \<^verbatim>\<open>batch_size\<close>
  n of at least 1: a sequence of \<^verbatim>\<open>add\<close> calls that keeps the buffer strictly below n
  appends the entries and sends nothing; the \<^verbatim>\<open>add\<close> that brings the buffer to n, made
  while the circuit breaker is not open, makes exactly one POST with all buffered
  entries, and when that POST succeeds the buffer is empty and the failure counter 0.
\<close>

theorem add_reaches_batch_size:
  assumes n: "1 \<le> batch_size t"
      and len: "int (length (buffer t)) + int (length calls) + 1 = batch_size t"
      and closed: "\<not> breaker_open now t"
  shows "adds calls t = Inr (t\<lparr>buffer := buffer t @ map (\<lambda>c. snd (snd c)) calls\<rparr>)
       \<and> (\<exists>t'. adds (calls @ [(now, outcome, e)]) t = Inr t'
             \<and> client_posts t'
                 = client_posts t
                   @ [batch_call t (buffer t @ map (\<lambda>c. snd (snd c)) calls @ [e])]
             \<and> (send_outcome outcome = Inr () \<longrightarrow>
                   buffer t' = [] \<and> consecutive_failures t' = 0))"
proof -
  let ?es = "map (\<lambda>c. snd (snd c)) calls"
  let ?t1 = "t\<lparr>buffer := buffer t @ ?es\<rparr>"
  let ?t2 = "?t1\<lparr>buffer := buffer ?t1 @ [e]\<rparr>"
  have below: "adds calls t = Inr ?t1"
    using len by (intro adds_below) simp
  have r: "int (length (buffer ?t1)) + 1 = batch_size ?t1" using len by simp
  have c1: "\<not> breaker_open now ?t1" using closed by (simp add: breaker_open_def)
  have step: "adds (calls @ [(now, outcome, e)]) t = flush_during now outcome [] ?t2"
    by (simp add: adds_append below add_reaching(1) [OF r c1] split: sum.splits)
  have ne: "buffer ?t2 \<noteq> []" by simp
  have c2: "\<not> breaker_open now ?t2" using closed by (simp add: breaker_open_def)
  have last: "\<exists>t'. flush_during now outcome [] ?t2 = Inr t'
             \<and> client_posts t' = client_posts t @ [batch_call t (buffer t @ ?es @ [e])]
             \<and> (send_outcome outcome = Inr () \<longrightarrow>
                   buffer t' = [] \<and> consecutive_failures t' = 0)"
  proof (cases "send_outcome outcome")
    case (Inl err)
    show ?thesis
      unfolding flush_during_failure [OF ne c2 Inl] by (simp add: Inl batch_call_def)
  next
    case (Inr u)
    show ?thesis
      unfolding flush_during_success [OF ne c2 Inr] by (simp add: batch_call_def)
  qed
  from below step last show ?thesis by simp
qed

text \<open>The scenario of the specification: \<^verbatim>\<open>batch_size=2\<close>, two entries, one send.\<close>

theorem add_reaches_batch_size_witness:
  "(1::int) \<le> 2
   \<and> adds [(0, Status 200, 1)] (mock_transport 2) = Inr ((mock_transport 2)\<lparr>buffer := [1]\<rparr>)
   \<and> (\<exists>t'. adds [(0, Status 200, 1), (0, Status 200, 2)] (mock_transport 2) = Inr t'
         \<and> client_posts t' = [batch_call (mock_transport 2) [1, 2]]
         \<and> buffer t' = [] \<and> consecutive_failures t' = 0)"
proof -
  have n: "1 \<le> batch_size (mock_transport 2)" by (simp add: mock_transport_def)
  have len: "int (length (buffer (mock_transport 2))) + int (length [(0::rat, Status 200, 1::nat)]) + 1
               = batch_size (mock_transport 2)"
    by (simp add: mock_transport_def)
  have closed: "\<not> breaker_open 0 (mock_transport 2)"
    by (simp add: breaker_open_def mock_transport_def)
  show ?thesis
    using add_reaches_batch_size [OF n len closed, of "Status 200" 2]
    by (simp add: mock_transport_def)
qed

text \<open>
  C1 as the claim states it fails on a transport whose breaker is open, set as the
  test of the breaker sets it: the second entry brings the buffer to \<^verbatim>\<open>batch_size\<close> 2,
  nothing is sent although the network would answer 200, and both entries stay.
\<close>

theorem add_under_open_breaker_counterexample:
  "batch_size ((mock_transport 2)\<lparr>circuit_breaker_until := Some 60\<rparr>) = 2
   \<and> adds [(0, Status 200, 1), (0, Status 200, 2)]
        ((mock_transport 2)\<lparr>circuit_breaker_until := Some 60\<rparr>)
       = Inr ((mock_transport 2)\<lparr>circuit_breaker_until := Some 60, buffer := [1, 2]\<rparr>)
   \<and> client_posts ((mock_transport 2)\<lparr>circuit_breaker_until := Some 60, buffer := [1, 2]\<rparr>) = []"
  by (simp add: mock_transport_def add_def flush_def flush_during_def breaker_open_def Let_def)

text \<open>
  C2. For every flush that attempts a send and fails (no answer, or a status outside
  2xx), the failed batch is put back in front of the entries that arrived after the
  snapshot, and \<^verbatim>\<open>consecutive_failures\<close> goes up by exactly 1; \<^verbatim>\<open>add\<close>, \<^verbatim>\<open>log\<close> and
  \<^verbatim>\<open>close\<close> return a transport in every state and on every answer of the network, so
  the failure never reaches their caller.
\<close>

theorem flush_failure_requeues:
  assumes "buffer t \<noteq> []" and "\<not> breaker_open now t" and "send_outcome outcome = Inl err"
  shows "(\<exists>t'. flush_during now outcome arrived t = Inr t'
            \<and> buffer t' = buffer t @ arrived
            \<and> consecutive_failures t' = consecutive_failures t + 1)
       \<and> (\<exists>t'. flush now outcome t = Inr t'
            \<and> buffer t' = buffer t
            \<and> consecutive_failures t' = consecutive_failures t + 1)
       \<and> (\<exists>t'. add now' outcome' e s = Inr t')
       \<and> (\<exists>t'. log_entry now' outcome' e s = Inr t')
       \<and> (\<exists>t'. close now' outcome' s = Inr t')"
  by (simp add: flush_def flush_during_failure [OF assms] add_total close_total log_entry_def)

text \<open>One entry in the buffer, another arriving during a send that gets no answer.\<close>

theorem flush_failure_requeues_witness:
  "buffer ((mock_transport 50)\<lparr>buffer := [1]\<rparr>) \<noteq> []
   \<and> \<not> breaker_open 0 ((mock_transport 50)\<lparr>buffer := [1]\<rparr>)
   \<and> send_outcome NetworkError = Inl TransportError
   \<and> (\<exists>t'. flush_during 0 NetworkError [2] ((mock_transport 50)\<lparr>buffer := [1]\<rparr>) = Inr t'
          \<and> buffer t' = [1, 2] \<and> consecutive_failures t' = 1)"
proof -
  have ne: "buffer ((mock_transport 50)\<lparr>buffer := [1]\<rparr>) \<noteq> []"
    by simp
  have closed: "\<not> breaker_open 0 ((mock_transport 50)\<lparr>buffer := [1]\<rparr>)"
    by (simp add: breaker_open_def mock_transport_def)
  have failed: "send_outcome NetworkError = Inl TransportError"
    by simp
  from flush_failure_requeues [OF ne closed failed, where arrived = "[2]"]
  have "\<exists>t'. flush_during 0 NetworkError [2] ((mock_transport 50)\<lparr>buffer := [1]\<rparr>) = Inr t'
          \<and> buffer t' = buffer ((mock_transport 50)\<lparr>buffer := [1]\<rparr>) @ [2]
          \<and> consecutive_failures t'
               = consecutive_failures ((mock_transport 50)\<lparr>buffer := [1]\<rparr>) + 1"
    by (rule conjunct1)
  then have "\<exists>t'. flush_during 0 NetworkError [2] ((mock_transport 50)\<lparr>buffer := [1]\<rparr>) = Inr t'
          \<and> buffer t' = [1, 2] \<and> consecutive_failures t' = 1"
    by (simp add: mock_transport_def)
  with ne closed failed show ?thesis by blast
qed

text \<open>
  C3. Whenever a failed send brings \<^verbatim>\<open>consecutive_failures\<close> to 5 or beyond,
  \<^verbatim>\<open>circuit_breaker_until\<close> is set to a time strictly after the clock reading, so the
  breaker is open; and every flush made while the clock is before
  \<^verbatim>\<open>circuit_breaker_until\<close> returns the transport as it was: nothing sent, the buffer
  unchanged.
\<close>

theorem circuit_breaker_opens_and_skips:
  "(buffer t \<noteq> [] \<and> \<not> breaker_open now t \<and> send_outcome outcome = Inl err
      \<and> 5 \<le> consecutive_failures t + 1 \<longrightarrow>
      (\<exists>t' u. flush_during now outcome arrived t = Inr t'
           \<and> circuit_breaker_until t' = Some u \<and> now < u \<and> breaker_open now t'))
   \<and> (breaker_open now2 t2 \<longrightarrow>
        flush_during now2 outcome2 arrived2 t2 = Inr t2 \<and> flush now2 outcome2 t2 = Inr t2)"
proof (intro conjI impI)
  assume a: "buffer t \<noteq> [] \<and> \<not> breaker_open now t \<and> send_outcome outcome = Inl err
      \<and> 5 \<le> consecutive_failures t + 1"
  then have 1: "buffer t \<noteq> []" and 2: "\<not> breaker_open now t"
    and 3: "send_outcome outcome = Inl err" and 4: "5 \<le> consecutive_failures t + 1"
    by simp_all
  show "\<exists>t' u. flush_during now outcome arrived t = Inr t'
           \<and> circuit_breaker_until t' = Some u \<and> now < u \<and> breaker_open now t'"
    using 4 by (simp add: flush_during_failure [OF 1 2 3] breaker_open_def backoff_seconds_def)
next
  assume b: "breaker_open now2 t2"
  then show "flush_during now2 outcome2 arrived2 t2 = Inr t2"
    by (simp add: flush_during_noop)
  from b show "flush now2 outcome2 t2 = Inr t2"
    by (simp add: flush_def flush_during_noop)
qed

text \<open>
  The fifth failure at time 0 sets the breaker to 60; a flush at time 59 on a transport
  with the breaker at 60 changes nothing.
\<close>

theorem circuit_breaker_opens_and_skips_witness:
  "(\<exists>t' u. flush_during 0 NetworkError []
              ((mock_transport 50)\<lparr>buffer := [1], consecutive_failures := 4\<rparr>) = Inr t'
          \<and> circuit_breaker_until t' = Some u \<and> 0 < u)
   \<and> breaker_open 59 ((mock_transport 50)\<lparr>buffer := [1], circuit_breaker_until := Some 60\<rparr>)
   \<and> flush 59 (Status 200)
        ((mock_transport 50)\<lparr>buffer := [1], circuit_breaker_until := Some 60\<rparr>)
       = Inr ((mock_transport 50)\<lparr>buffer := [1], circuit_breaker_until := Some 60\<rparr>)"
proof -
  have opened: "breaker_open 59
      ((mock_transport 50)\<lparr>buffer := [1], circuit_breaker_until := Some 60\<rparr>)"
    by (simp add: breaker_open_def mock_transport_def)
  have closed: "\<not> breaker_open 0
      ((mock_transport 50)\<lparr>buffer := [1], consecutive_failures := 4\<rparr>)"
    by (simp add: breaker_open_def mock_transport_def)
  have ne: "buffer ((mock_transport 50)\<lparr>buffer := [1], consecutive_failures := 4\<rparr>) \<noteq> []"
    by simp
  have failed: "send_outcome NetworkError = Inl TransportError"
    by simp
  have fifth: "5 \<le> consecutive_failures
                      ((mock_transport 50)\<lparr>buffer := [1], consecutive_failures := 4\<rparr>) + 1"
    by simp
  note inst = circuit_breaker_opens_and_skips
        [where t = "(mock_transport 50)\<lparr>buffer := [1], consecutive_failures := 4\<rparr>"
           and now = 0 and outcome = NetworkError and err = TransportError and arrived = "[]"
           and ?now2.0 = 59
           and ?t2.0 = "(mock_transport 50)\<lparr>buffer := [1], circuit_breaker_until := Some 60\<rparr>"
           and ?outcome2.0 = "Status 200" and ?arrived2.0 = "[]"]
  from inst ne closed failed fifth
  have a: "\<exists>t' u. flush_during 0 NetworkError []
              ((mock_transport 50)\<lparr>buffer := [1], consecutive_failures := 4\<rparr>) = Inr t'
          \<and> circuit_breaker_until t' = Some u \<and> 0 < u"
    by blast
  from inst opened
  have b: "flush 59 (Status 200)
        ((mock_transport 50)\<lparr>buffer := [1], circuit_breaker_until := Some 60\<rparr>)
       = Inr ((mock_transport 50)\<lparr>buffer := [1], circuit_breaker_until := Some 60\<rparr>)"
    by blast
  from a opened b show ?thesis by blast
qed

text \<open>
  C4. Every flush with a non-empty buffer and a closed breaker makes exactly one POST,
  whatever the network answers: the list of requests grows by the one batch. After a
  failure the entries are sent again only by a later flush, which again makes one
  POST, with the failed batch in front.
\<close>

theorem flush_sends_once:
  assumes ne: "buffer t \<noteq> []" and closed: "\<not> breaker_open now t"
  shows "\<exists>t'. flush_during now outcome arrived t = Inr t'
           \<and> client_posts t' = client_posts t @ [batch_call t (buffer t)]
           \<and> (send_outcome outcome = Inl TransportError \<longrightarrow> \<not> breaker_open now2 t' \<longrightarrow>
                (\<exists>t''. flush_during now2 outcome2 arrived2 t' = Inr t''
                   \<and> client_posts t''
                       = client_posts t @ [batch_call t (buffer t), batch_call t (buffer t @ arrived)]))"
proof (cases "send_outcome outcome")
  case (Inr u)
  show ?thesis by (simp add: flush_during_success [OF ne closed Inr] Inr)
next
  case (Inl err)
  let ?t' = "t\<lparr>buffer := buffer t @ arrived,
                  client_posts := client_posts t @ [batch_call t (buffer t)],
                  consecutive_failures := consecutive_failures t + 1,
                  circuit_breaker_until :=
                    (if consecutive_failures t + 1 \<ge> 5 then Some (now + backoff_seconds)
                     else circuit_breaker_until t)\<rparr>"
  have f: "flush_during now outcome arrived t = Inr ?t'"
    by (rule flush_during_failure [OF ne closed Inl])
  have ne': "buffer ?t' \<noteq> []" using ne by simp
  have again: "\<not> breaker_open now2 ?t' \<Longrightarrow>
      \<exists>t''. flush_during now2 outcome2 arrived2 ?t' = Inr t''
         \<and> client_posts t''
             = client_posts t @ [batch_call t (buffer t), batch_call t (buffer t @ arrived)]"
  proof -
    assume c: "\<not> breaker_open now2 ?t'"
    show ?thesis
    proof (cases "send_outcome outcome2")
      case (Inr u)
      show ?thesis
        unfolding flush_during_success [OF ne' c Inr] by (simp add: batch_call_def)
    next
      case (Inl err2)
      show ?thesis
        unfolding flush_during_failure [OF ne' c Inl] by (simp add: batch_call_def)
    qed
  qed
  show ?thesis
  proof (rule exI [of _ ?t'], intro conjI impI)
    show "flush_during now outcome arrived t = Inr ?t'" by (rule f)
    show "client_posts ?t' = client_posts t @ [batch_call t (buffer t)]" by simp
    assume "\<not> breaker_open now2 ?t'"
    then show "\<exists>t''. flush_during now2 outcome2 arrived2 ?t' = Inr t''
         \<and> client_posts t''
             = client_posts t @ [batch_call t (buffer t), batch_call t (buffer t @ arrived)]"
      by (rule again)
  qed
qed

text \<open>A flush answered with status 500 makes one request; the next flush makes the second.\<close>

theorem flush_sends_once_witness:
  "\<exists>t'. flush_during 0 (Status 500) [] ((mock_transport 50)\<lparr>buffer := [1]\<rparr>) = Inr t'
      \<and> client_posts t' = [batch_call (mock_transport 50) [1]]
      \<and> (\<exists>t''. flush_during 1 (Status 200) [] t' = Inr t''
             \<and> client_posts t''
                 = [batch_call (mock_transport 50) [1], batch_call (mock_transport 50) [1]])"
proof -
  have ne: "buffer ((mock_transport 50)\<lparr>buffer := [1]\<rparr>) \<noteq> []"
    by simp
  have closed: "\<not> breaker_open 0 ((mock_transport 50)\<lparr>buffer := [1]\<rparr>)"
    by (simp add: breaker_open_def mock_transport_def)
  from flush_sends_once [OF ne closed, where outcome = "Status 500" and arrived = "[]"
         and ?now2.0 = 1 and ?outcome2.0 = "Status 200" and ?arrived2.0 = "[]"]
  obtain t' where
    f: "flush_during 0 (Status 500) [] ((mock_transport 50)\<lparr>buffer := [1]\<rparr>) = Inr t'" and
    p: "client_posts t'
          = client_posts ((mock_transport 50)\<lparr>buffer := [1]\<rparr>)
            @ [batch_call ((mock_transport 50)\<lparr>buffer := [1]\<rparr>)
                 (buffer ((mock_transport 50)\<lparr>buffer := [1]\<rparr>))]" and
    r: "send_outcome (Status 500) = Inl TransportError \<longrightarrow> \<not> breaker_open 1 t' \<longrightarrow>
          (\<exists>t''. flush_during 1 (Status 200) [] t' = Inr t''
             \<and> client_posts t''
                 = client_posts ((mock_transport 50)\<lparr>buffer := [1]\<rparr>)
                   @ [batch_call ((mock_transport 50)\<lparr>buffer := [1]\<rparr>)
                        (buffer ((mock_transport 50)\<lparr>buffer := [1]\<rparr>)),
                      batch_call ((mock_transport 50)\<lparr>buffer := [1]\<rparr>)
                        (buffer ((mock_transport 50)\<lparr>buffer := [1]\<rparr>) @ [])])"
    by blast
  have t': "t' = (mock_transport 50)
                   \<lparr>buffer := [1],
                    client_posts := [batch_call (mock_transport 50) [1]],
                    consecutive_failures := 1\<rparr>"
    using f by (simp add: flush_during_def Let_def breaker_open_def mock_transport_def
                  batch_call_def)
  have "\<not> breaker_open 1 t'"
    by (simp add: t' breaker_open_def mock_transport_def)
  with r have "\<exists>t''. flush_during 1 (Status 200) [] t' = Inr t''
             \<and> client_posts t''
                 = [batch_call (mock_transport 50) [1], batch_call (mock_transport 50) [1]]"
    by (simp add: mock_transport_def batch_call_def)
  with f p show ?thesis
    by (simp add: mock_transport_def batch_call_def)
qed

end
